theory Spec2Isabelle
  imports Complex_Main
begin

section \<open>Media handlers of listmonk (cmd/media.go)\<close>

text \<open>
  A shallow embedding of \<^verbatim>\<open>handleUploadMedia\<close>, \<^verbatim>\<open>handleGetMedia\<close>,
  \<^verbatim>\<open>handleDeleteMedia\<close> and \<^verbatim>\<open>processImage\<close>. The handlers talk to two
  collaborators, the media store \<^verbatim>\<open>app.media\<close> (blobs) and \<^verbatim>\<open>app.core\<close>
  (the media table). Both are state: the model threads a \<open>world\<close> through every call,
  and every call to a collaborator is written to a log, together with its outcome.
  Every \<^verbatim>\<open>return echo.NewHTTPError(...)\<close> and every \<^verbatim>\<open>return err\<close> is a value
  of the type \<open>error\<close>. The lines written with \<^verbatim>\<open>app.log.Printf\<close>, the texts of the
  messages and the closing of the uploaded file are left out.
\<close>

subsection \<open>Functions of the Go standard library\<close>

text \<open>
  \<^verbatim>\<open>strings.ToLower\<close>. On a string of ASCII bytes it maps the letters A to Z to a to
  z and leaves the rest. A string with a byte outside ASCII goes through Go's Unicode
  case mapping, which is taken as a parameter (\<open>unicode\<close>).
\<close>

definition lower_byte :: "char \<Rightarrow> char" where
  "lower_byte ch =
     (case map_of (zip ''ABCDEFGHIJKLMNOPQRSTUVWXYZ'' ''abcdefghijklmnopqrstuvwxyz'') ch of
        None \<Rightarrow> ch
      | Some l \<Rightarrow> l)"

definition is_ascii :: "char \<Rightarrow> bool" where
  "is_ascii ch = ((of_char ch :: nat) < 128)"

definition ToLower :: "(string \<Rightarrow> string) \<Rightarrow> string \<Rightarrow> string" where
  "ToLower unicode s = (if list_all is_ascii s then map lower_byte s else unicode s)"

text \<open>
  \<^verbatim>\<open>filepath.Ext\<close>, where the path separator is the slash: the suffix beginning at the
  final dot in the final element of the path, empty if there is no dot. The Go loop walks
  from the last byte to the first and stops at a path separator; \<open>ext_scan\<close> walks the reversed path and collects
  the bytes it has passed.
\<close>

fun ext_scan :: "string \<Rightarrow> string \<Rightarrow> string" where
  "ext_scan [] seen = []"
| "ext_scan (ch # rest) seen =
     (if ch = CHR ''/'' then []
      else if ch = CHR ''.'' then ch # seen
      else ext_scan rest (ch # seen))"

definition Ext :: "string \<Rightarrow> string" where
  "Ext path = ext_scan (rev path) []"

definition TrimPrefix :: "string \<Rightarrow> string \<Rightarrow> string" where
  "TrimPrefix s p = (if take (length p) s = p then drop (length p) s else s)"

definition TrimSuffix :: "string \<Rightarrow> string \<Rightarrow> string" where
  "TrimSuffix s x =
     (if drop (length s - length x) s = x \<and> length x \<le> length s
      then take (length s - length x) s else s)"

text \<open>
  \<^verbatim>\<open>strconv.Atoi\<close> on a 64-bit platform, with \<^verbatim>\<open>strconv.ParseInt\<close> and
  \<^verbatim>\<open>strconv.ParseUint\<close> for base 10. Each returns a value and an error; the handlers
  drop the error (\<^verbatim>\<open>id, _ := ...\<close>), so the value returned next to an error matters.
\<close>

datatype NumError = ErrSyntax | ErrRange

definition digit_val :: "char \<Rightarrow> nat option" where
  "digit_val ch =
     (if 48 \<le> (of_char ch :: nat) \<and> (of_char ch :: nat) \<le> 57
      then Some ((of_char ch :: nat) - 48) else None)"

definition maxUint64 :: nat where
  "maxUint64 = 2 ^ 64 - 1"

text \<open>
  The loop of \<^verbatim>\<open>ParseUint\<close>: the bytes are read from the left. A byte that is not a
  digit is a syntax error, with the value 0. When the number read so far cannot take the
  next digit within 64 bits (\<^verbatim>\<open>n >= cutoff\<close>, or the sum overflows), the loop returns
  the largest value and a range error at once: the bytes after that digit are not read.
\<close>

fun ParseUint_loop :: "string \<Rightarrow> nat \<Rightarrow> nat \<times> NumError option" where
  "ParseUint_loop [] n = (n, None)"
| "ParseUint_loop (ch # rest) n =
     (case digit_val ch of
        None \<Rightarrow> (0, Some ErrSyntax)
      | Some d \<Rightarrow>
          if maxUint64 div 10 + 1 \<le> n then (maxUint64, Some ErrRange)
          else if maxUint64 < n * 10 + d then (maxUint64, Some ErrRange)
          else ParseUint_loop rest (n * 10 + d))"

definition ParseUint :: "string \<Rightarrow> nat \<times> NumError option" where
  "ParseUint s = (if s = [] then (0, Some ErrSyntax) else ParseUint_loop s 0)"

text \<open>
  \<^verbatim>\<open>ParseInt\<close>: the sign is picked off, the rest goes to \<^verbatim>\<open>ParseUint\<close>. A syntax
  error gives 0; a number out of range, also one that \<^verbatim>\<open>ParseUint\<close> reports, gives
  the nearest bound of the 64-bit integers and a range error.
\<close>

definition ParseInt :: "string \<Rightarrow> int \<times> NumError option" where
  "ParseInt s =
     (if s = [] then (0, Some ErrSyntax)
      else
        let neg = (hd s = CHR ''-'');
            body = (if hd s = CHR ''+'' then tl s else if hd s = CHR ''-'' then tl s else s);
            (un, err) = ParseUint body
        in if err = Some ErrSyntax then (0, Some ErrSyntax)
           else if \<not> neg \<and> 2 ^ 63 \<le> un then (2 ^ 63 - 1, Some ErrRange)
           else if neg \<and> 2 ^ 63 < un then (- (2 ^ 63), Some ErrRange)
           else (if neg then - int un else int un, None))"

text \<open>
  The loop of the fast path of \<^verbatim>\<open>Atoi\<close>, for strings of 1 to 18 bytes, which cannot
  overflow: \<open>None\<close> when a byte is not a digit.
\<close>

fun parse_digits :: "string \<Rightarrow> nat \<Rightarrow> nat option" where
  "parse_digits [] acc = Some acc"
| "parse_digits (ch # rest) acc =
     (case digit_val ch of
        None \<Rightarrow> None
      | Some d \<Rightarrow> parse_digits rest (acc * 10 + d))"

definition Atoi :: "string \<Rightarrow> int \<times> NumError option" where
  "Atoi s =
     (if 0 < length s \<and> length s < 19 then
        let body = (if hd s = CHR ''-'' \<or> hd s = CHR ''+'' then tl s else s)
        in if length body < 1 then (0, Some ErrSyntax)
           else (case parse_digits body 0 of
                   None \<Rightarrow> (0, Some ErrSyntax)
                 | Some n \<Rightarrow> (if hd s = CHR ''-'' then - int n else int n, None))
      else ParseInt s)"

text \<open>
  A numeric string: an optional sign followed by one or more decimal digits. The claims
  about the id parameter speak of ids that are not numeric.
\<close>

definition is_digit :: "char \<Rightarrow> bool" where
  "is_digit ch = (digit_val ch \<noteq> None)"

definition numeric :: "string \<Rightarrow> bool" where
  "numeric s =
     (s \<noteq> [] \<and>
      (let body = (if hd s = CHR ''-'' \<or> hd s = CHR ''+'' then tl s else s)
       in body \<noteq> [] \<and> list_all is_digit body))"

subsection \<open>Images\<close>

text \<open>
  Go's \<^verbatim>\<open>image.Point\<close> and \<^verbatim>\<open>image.Rectangle\<close>; \<^verbatim>\<open>Dx\<close> and \<^verbatim>\<open>Dy\<close> are
  the width and the height of a rectangle. An image is its bounds and its pixels; the
  pixels are opaque to the handlers.
\<close>

record point =
  X :: int
  Y :: int

record rectangle =
  MinPt :: point
  MaxPt :: point

definition Dx :: "rectangle \<Rightarrow> int" where
  "Dx r = X (MaxPt r) - X (MinPt r)"

definition Dy :: "rectangle \<Rightarrow> int" where
  "Dy r = Y (MaxPt r) - Y (MinPt r)"

definition Rect :: "int \<Rightarrow> int \<Rightarrow> int \<Rightarrow> int \<Rightarrow> rectangle" where
  "Rect x0 y0 x1 y1 = \<lparr>MinPt = \<lparr>X = x0, Y = y0\<rparr>, MaxPt = \<lparr>X = x1, Y = y1\<rparr>\<rparr>"

type_synonym bytes = "nat list"

record image =
  Bounds :: rectangle
  Pix :: bytes

datatype Format = JPEG | PNG | GIF | TIFF | BMP

type_synonym ResampleFilter = "image \<Rightarrow> int \<Rightarrow> int \<Rightarrow> bytes"

text \<open>Rounding to the nearest integer (halves go up) of a quotient of integers.\<close>

definition round_div :: "int \<Rightarrow> int \<Rightarrow> int" where
  "round_div a b = (2 * a + b) div (2 * b)"

text \<open>
  Modelled from the spec: \<^verbatim>\<open>imaging.Resize\<close>, of the imaging library that
  \<^verbatim>\<open>processImage\<close> calls; its code is not under src/. Section 4.2 of the spec:
  "resize to a fixed target width (250 units) preserving aspect ratio (height computed
  proportionally; if the algorithm's height parameter is given as "auto", height =
  round(targetWidth x originalHeight / originalWidth))". The height parameter 0 is "auto".
  The resized image starts at the origin; its pixels are what the resampling filter
  computes.
\<close>

definition Resize :: "image \<Rightarrow> int \<Rightarrow> int \<Rightarrow> ResampleFilter \<Rightarrow> image" where
  "Resize img width height resample =
     (let srcW = Dx (Bounds img);
          srcH = Dy (Bounds img);
          dstW = width;
          dstH = (if height = 0 then round_div (dstW * srcH) srcW else height)
      in \<lparr>Bounds = Rect 0 0 dstW dstH, Pix = resample img dstW dstH\<rparr>)"

subsection \<open>Data model\<close>

text \<open>\<^verbatim>\<open>models.Media\<close>: a row of the media table. \<^verbatim>\<open>models.JSON\<close> is a map.\<close>

record Media =
  ID :: int
  Filename :: string
  Thumb :: string
  ContentType :: string
  Meta :: "string \<rightharpoonup> int"
  Provider :: string

text \<open>A stored blob: the content type it was put with, and its bytes.\<close>

record blob =
  blob_type :: string
  blob_data :: bytes

text \<open>The errors of the collaborators.\<close>

datatype cause =
    OpenFailure
  | DecodeFailure
  | EncodeFailure
  | StorageFailure
  | PersistenceFailure
  | NotFound

text \<open>
  The errors the handlers return: the HTTP errors they build (named after their message
  keys), and \<open>CoreErr\<close> for an error of \<^verbatim>\<open>app.core\<close> that a handler returns as it is
  (\<^verbatim>\<open>return err\<close>).
\<close>

datatype error =
    InvalidFile
  | ErrorReadingFile
  | UnsupportedFileType string
  | InternalError
  | ErrorUploading cause
  | ErrorResizing cause
  | ErrorSavingThumbnail cause
  | InvalidID
  | CoreErr cause

text \<open>The calls to the collaborators, as the log keeps them.\<close>

datatype op =
    GetMediaOp int string string
  | InsertMediaOp string string string "string \<rightharpoonup> int" string
  | QueryMediaOp string string int int
  | DeleteMediaOp int
  | PutOp string string bytes
  | DeleteOp string

text \<open>
  The state of the two stores. \<open>calls\<close> is the log: every call with its outcome,
  \<open>Inl\<close> the error or \<open>Inr\<close> the name the call returned (the stored key of a put, the
  file name of a row; empty where a call returns none).
\<close>

record world =
  blobs :: "string \<rightharpoonup> blob"
  rows :: "Media list"
  next_id :: int
  calls :: "(op \<times> (cause + string)) list"

text \<open>\<^verbatim>\<open>paginator.Set\<close> and \<^verbatim>\<open>models.PageResults\<close>.\<close>

record pgSet =
  pg_Offset :: int
  pg_Limit :: int
  pg_Page :: int
  pg_PerPage :: int

record PageResults =
  Results :: "Media list"
  Total :: int
  Page :: int
  PerPage :: int

text \<open>
  \<^verbatim>\<open>*App\<close>: the configuration (\<^verbatim>\<open>app.constants.MediaUpload\<close>) and what stands
  outside src/ and is taken as a parameter: the sanitiser, the random source, the image
  codec and its resampling filter, the paginator, the text filter of the media query,
  how the blob store renames a key, which calls to a collaborator fail, and Go's Unicode
  case mapping.
\<close>

record App =
  MediaUpload_Extensions :: "string list"
  MediaUpload_Provider :: string
  unicode_ToLower :: "string \<Rightarrow> string"
  makeFilename :: "string \<Rightarrow> string"
  rand_Read :: "(nat \<Rightarrow> nat) option"
  Decode :: "bytes \<Rightarrow> image option"
  Encode :: "image \<Rightarrow> Format \<Rightarrow> bytes option"
  Lanczos :: ResampleFilter
  NewFromURL :: "(string \<times> string) list \<Rightarrow> pgSet"
  matches :: "string \<Rightarrow> Media \<Rightarrow> bool"
  rename :: "(string \<rightharpoonup> blob) \<Rightarrow> string \<Rightarrow> string"
  fails :: "op \<Rightarrow> bool"

text \<open>
  \<^verbatim>\<open>*multipart.FileHeader\<close>: the name and the Content-Type header the client sent, and
  what \<^verbatim>\<open>Open\<close> gives (\<open>None\<close> when it fails).
\<close>

record FileHeader =
  file_Filename :: string
  file_ContentType :: string
  file_Open :: "bytes option"

text \<open>\<^verbatim>\<open>echo.Context\<close>: what the handlers read of the request.\<close>

record Context =
  FormFile :: "string \<Rightarrow> FileHeader option"
  Param :: "string \<Rightarrow> string"
  FormValue :: "string \<Rightarrow> string"
  URL_Query :: "(string \<times> string) list"

subsection \<open>Constants of cmd/media.go\<close>

definition thumbPrefix :: string where
  "thumbPrefix = ''thumb_''"

definition thumbnailSize :: int where
  "thumbnailSize = 250"

definition vectorExts :: "string list" where
  "vectorExts = [''svg'']"

definition imageExts :: "string list" where
  "imageExts = [''gif'', ''png'', ''jpg'', ''jpeg'']"

subsection \<open>Helpers of the repository that are not under src/\<close>

text \<open>
  Modelled from the spec: \<^verbatim>\<open>inArray\<close>, missing from src/. Section 4.3, step 1: "the
  extension must appear in it".
\<close>

definition inArray :: "string \<Rightarrow> string list \<Rightarrow> bool" where
  "inArray val vals = (val \<in> set vals)"

text \<open>
  Modelled from the spec: \<^verbatim>\<open>generateRandomString\<close>, missing from src/. Section 4.1: a
  "short random suffix (fixed-length, alphanumeric)", and failure "if secure randomness
  is unavailable". Each random byte picks one of the 62 alphanumeric characters.
\<close>

definition dictionary :: string where
  "dictionary = ''0123456789ABCDEFGHIJKLMNOPQRSTUVWXYZabcdefghijklmnopqrstuvwxyz''"

definition generateRandomString :: "App \<Rightarrow> nat \<Rightarrow> string option" where
  "generateRandomString app n =
     (case rand_Read app of
        None \<Rightarrow> None
      | Some rnd \<Rightarrow> Some (map (\<lambda>k. dictionary ! (rnd k mod 62)) [0..<n]))"

text \<open>
  Modelled from the spec: \<^verbatim>\<open>appendSuffixToFilename\<close>, missing from src/. Section 4.1:
  "appending a short random suffix [...] before the extension"; section 8: "a stored
  filename of the form report_<6-char-suffix>.png".
\<close>

definition appendSuffixToFilename :: "string \<Rightarrow> string \<Rightarrow> string" where
  "appendSuffixToFilename filename suffix =
     (let ext = Ext filename;
          name = TrimSuffix filename ext
      in name @ ''_'' @ suffix @ ext)"

subsection \<open>The collaborators\<close>

definition log_call :: "op \<Rightarrow> cause + string \<Rightarrow> world \<Rightarrow> world" where
  "log_call c r w = w\<lparr>calls := calls w @ [(c, r)]\<rparr>"

text \<open>
  Modelled from the spec: the blob store \<^verbatim>\<open>app.media\<close>, whose providers are not under
  src/. Section 6: "put(key, contentType, data) -> (storedKey, error) [...] may itself
  rename for backend-specific reasons, hence returning the authoritative stored key";
  "delete(key) -> error - must tolerate deleting a nonexistent key without error".
\<close>

definition Put :: "App \<Rightarrow> string \<Rightarrow> string \<Rightarrow> bytes \<Rightarrow> world \<Rightarrow> (cause + string) \<times> world" where
  "Put app key cType src w =
     (if fails app (PutOp key cType src)
      then (Inl StorageFailure, log_call (PutOp key cType src) (Inl StorageFailure) w)
      else
        let stored = rename app (blobs w) key
        in (Inr stored,
            log_call (PutOp key cType src) (Inr stored)
              (w\<lparr>blobs := (blobs w)(stored \<mapsto> \<lparr>blob_type = cType, blob_data = src\<rparr>)\<rparr>)))"

definition Delete :: "App \<Rightarrow> string \<Rightarrow> world \<Rightarrow> cause option \<times> world" where
  "Delete app key w =
     (if fails app (DeleteOp key)
      then (Some StorageFailure, log_call (DeleteOp key) (Inl StorageFailure) w)
      else (None, log_call (DeleteOp key) (Inr []) (w\<lparr>blobs := (blobs w)(key := None)\<rparr>)))"

text \<open>
  Modelled from the spec: the media table behind \<^verbatim>\<open>app.core\<close>, not under src/.
  Section 6: "getMedia(id, filenameExact, provider?) -> MediaObject | NotFound",
  "insertMedia(filename, thumbnailFilename, contentType, metadata, provider) ->
  MediaObject", "queryMedia(provider, filterText, offset, limit) -> (items,
  totalCount)", "deleteMedia(id) -> filename | NotFound"; section 3: the id is
  "assigned by MetadataStore on insert". A row is looked up by its id when the id is
  positive, by its file name otherwise.
\<close>

definition GetMedia :: "App \<Rightarrow> int \<Rightarrow> string \<Rightarrow> string \<Rightarrow> world \<Rightarrow> (cause + Media) \<times> world" where
  "GetMedia app i uuid fileName w =
     (let r = (if fails app (GetMediaOp i uuid fileName) then Inl PersistenceFailure
               else (case find (\<lambda>m. if 0 < i then ID m = i else Filename m = fileName) (rows w) of
                       None \<Rightarrow> Inl NotFound
                     | Some m \<Rightarrow> Inr m))
      in (r, log_call (GetMediaOp i uuid fileName) (map_sum id Filename r) w))"

definition InsertMedia ::
  "App \<Rightarrow> string \<Rightarrow> string \<Rightarrow> string \<Rightarrow> (string \<rightharpoonup> int) \<Rightarrow> string \<Rightarrow> world \<Rightarrow> (cause + Media) \<times> world" where
  "InsertMedia app fileName thumbName contentType meta provider w =
     (if fails app (InsertMediaOp fileName thumbName contentType meta provider)
      then (Inl PersistenceFailure,
            log_call (InsertMediaOp fileName thumbName contentType meta provider)
              (Inl PersistenceFailure) w)
      else
        let m = \<lparr>ID = next_id w, Filename = fileName, Thumb = thumbName,
                 ContentType = contentType, Meta = meta, Provider = provider\<rparr>
        in (Inr m,
            log_call (InsertMediaOp fileName thumbName contentType meta provider) (Inr fileName)
              (w\<lparr>rows := rows w @ [m], next_id := next_id w + 1\<rparr>)))"

definition QueryMedia ::
  "App \<Rightarrow> string \<Rightarrow> string \<Rightarrow> int \<Rightarrow> int \<Rightarrow> world \<Rightarrow> (cause + Media list \<times> int) \<times> world" where
  "QueryMedia app provider query offset limit w =
     (if fails app (QueryMediaOp provider query offset limit)
      then (Inl PersistenceFailure,
            log_call (QueryMediaOp provider query offset limit) (Inl PersistenceFailure) w)
      else
        let hits = filter (\<lambda>m. Provider m = provider \<and> matches app query m) (rows w)
        in (Inr (take (nat limit) (drop (nat offset) hits), int (length hits)),
            log_call (QueryMediaOp provider query offset limit) (Inr []) w))"

definition DeleteMedia :: "App \<Rightarrow> int \<Rightarrow> world \<Rightarrow> (cause + string) \<times> world" where
  "DeleteMedia app i w =
     (if fails app (DeleteMediaOp i)
      then (Inl PersistenceFailure, log_call (DeleteMediaOp i) (Inl PersistenceFailure) w)
      else (case find (\<lambda>m. ID m = i) (rows w) of
              None \<Rightarrow> (Inl NotFound, log_call (DeleteMediaOp i) (Inl NotFound) w)
            | Some m \<Rightarrow>
                (Inr (Filename m),
                 log_call (DeleteMediaOp i) (Inr (Filename m))
                   (w\<lparr>rows := filter (\<lambda>m. ID m \<noteq> i) (rows w)\<rparr>))))"

subsection \<open>processImage\<close>

text \<open>
  The thumbnail bytes and the \<^verbatim>\<open>Max\<close> corner of the bounds of the decoded image
  (\<^verbatim>\<open>b := img.Bounds().Max\<close>).
\<close>

definition processImage :: "App \<Rightarrow> FileHeader \<Rightarrow> cause + (bytes \<times> int \<times> int)" where
  "processImage app file =
     (case file_Open file of
        None \<Rightarrow> Inl OpenFailure
      | Some src \<Rightarrow>
          (case Decode app src of
             None \<Rightarrow> Inl DecodeFailure
           | Some img \<Rightarrow>
               let thumb = Resize img thumbnailSize 0 (Lanczos app)
               in (case Encode app thumb PNG of
                     None \<Rightarrow> Inl EncodeFailure
                   | Some out \<Rightarrow>
                       let b = MaxPt (Bounds img)
                       in Inr (out, X b, Y b))))"

subsection \<open>handleUploadMedia\<close>

text \<open>Lines 46 to 50: the extension, lowercased and without its dot.\<close>

definition upload_ext :: "App \<Rightarrow> FileHeader \<Rightarrow> string" where
  "upload_ext app file =
     TrimPrefix (ToLower (unicode_ToLower app) (Ext (file_Filename file))) ''.''"

text \<open>
  Lines 60 to 72: the sanitised name, and a random suffix when a row of that name
  exists (\<^verbatim>\<open>err == nil\<close>). The lookup is made once.
\<close>

definition upload_name :: "App \<Rightarrow> FileHeader \<Rightarrow> world \<Rightarrow> (error + string) \<times> world" where
  "upload_name app file w =
     (let fName = makeFilename app (file_Filename file)
      in (case GetMedia app 0 [] fName w of
            (Inr found, w1) \<Rightarrow>
              (case generateRandomString app 6 of
                 None \<Rightarrow> (Inl InternalError, w1)
               | Some suffix \<Rightarrow> (Inr (appendSuffixToFilename fName suffix), w1))
          | (Inl err, w1) \<Rightarrow> (Inr fName, w1)))"

text \<open>
  Lines 98 to 144, the steps after the original is stored. Next to the result the
  function returns the two variables the deferred function reads when the handler
  returns: \<^verbatim>\<open>cleanUp\<close> and \<^verbatim>\<open>thumbfName\<close>.
\<close>

definition upload_stored ::
  "App \<Rightarrow> FileHeader \<Rightarrow> string \<Rightarrow> string \<Rightarrow> string \<Rightarrow> world \<Rightarrow> (error + Media) \<times> bool \<times> string \<times> world" where
  "upload_stored app file ext contentType fName w =
     (let isImage = inArray ext imageExts;
          made =
            (if isImage then
               (case processImage app file of
                  Inl err \<Rightarrow> Inl (ErrorResizing err, w)
                | Inr (thumbFile, wd, ht) \<Rightarrow>
                    (case Put app (thumbPrefix @ fName) contentType thumbFile w of
                       (Inl err, w1) \<Rightarrow> Inl (ErrorSavingThumbnail err, w1)
                     | (Inr tf, w1) \<Rightarrow> Inr (tf, wd, ht, w1)))
             else Inr ([], 0, 0, w))
      in (case made of
            Inl (e, w1) \<Rightarrow> (Inl e, True, [], w1)
          | Inr (tf, width, height, w1) \<Rightarrow>
              let thumbfName = (if inArray ext vectorExts then fName else tf);
                  meta = (if isImage then [''width'' \<mapsto> width, ''height'' \<mapsto> height]
                          else Map.empty)
              in (case InsertMedia app fName thumbfName contentType meta
                         (MediaUpload_Provider app) w1 of
                    (Inl err, w2) \<Rightarrow> (Inl (CoreErr err), True, thumbfName, w2)
                  | (Inr m, w2) \<Rightarrow> (Inr m, False, thumbfName, w2))))"

text \<open>Lines 88 to 96: the deferred function.\<close>

definition upload_deferred :: "App \<Rightarrow> string \<Rightarrow> bool \<Rightarrow> string \<Rightarrow> world \<Rightarrow> world" where
  "upload_deferred app fName cleanUp thumbfName w =
     (if cleanUp then
        let w1 = snd (Delete app fName w)
        in (if thumbfName \<noteq> [] then snd (Delete app thumbfName w1) else w1)
      else w)"

definition handleUploadMedia :: "App \<Rightarrow> Context \<Rightarrow> world \<Rightarrow> (error + Media) \<times> world" where
  "handleUploadMedia app c w =
     (case FormFile c ''file'' of
        None \<Rightarrow> (Inl InvalidFile, w)
      | Some file \<Rightarrow>
          (case file_Open file of
             None \<Rightarrow> (Inl ErrorReadingFile, w)
           | Some src \<Rightarrow>
               let ext = upload_ext app file;
                   contentType = file_ContentType file
               in if \<not> inArray ''*'' (MediaUpload_Extensions app)
                     \<and> \<not> inArray ext (MediaUpload_Extensions app)
                  then (Inl (UnsupportedFileType ext), w)
                  else
                    (case upload_name app file w of
                       (Inl e, w1) \<Rightarrow> (Inl e, w1)
                     | (Inr fName, w1) \<Rightarrow>
                         (case Put app fName contentType src w1 of
                            (Inl err, w2) \<Rightarrow> (Inl (ErrorUploading err), w2)
                          | (Inr stored, w2) \<Rightarrow>
                              (case upload_stored app file ext contentType stored w2 of
                                 (res, cleanUp, thumbfName, w3) \<Rightarrow>
                                   (res, upload_deferred app stored cleanUp thumbfName w3))))))"

subsection \<open>handleGetMedia\<close>

datatype getResp = One Media | Many PageResults

definition handleGetMedia :: "App \<Rightarrow> Context \<Rightarrow> world \<Rightarrow> (error + getResp) \<times> world" where
  "handleGetMedia app c w =
     (let i = fst (Atoi (Param c ''id''))
      in if 0 < i then
           (case GetMedia app i [] [] w of
              (Inl err, w1) \<Rightarrow> (Inl (CoreErr err), w1)
            | (Inr out, w1) \<Rightarrow> (Inr (One out), w1))
         else
           let pg = NewFromURL app (URL_Query c);
               query = FormValue c ''query''
           in (case QueryMedia app (MediaUpload_Provider app) query (pg_Offset pg) (pg_Limit pg) w of
                 (Inl err, w1) \<Rightarrow> (Inl (CoreErr err), w1)
               | (Inr (res, tot), w1) \<Rightarrow>
                   (Inr (Many \<lparr>Results = res, Total = tot, Page = pg_Page pg,
                               PerPage = pg_PerPage pg\<rparr>), w1)))"

subsection \<open>handleDeleteMedia\<close>

definition handleDeleteMedia :: "App \<Rightarrow> Context \<Rightarrow> world \<Rightarrow> (error + bool) \<times> world" where
  "handleDeleteMedia app c w =
     (let i = fst (Atoi (Param c ''id''))
      in if i < 1 then (Inl InvalidID, w)
         else
           (case DeleteMedia app i w of
              (Inl err, w1) \<Rightarrow> (Inl (CoreErr err), w1)
            | (Inr fname, w1) \<Rightarrow>
                let w2 = snd (Delete app fname w1);
                    w3 = snd (Delete app (thumbPrefix @ fname) w2)
                in (Inr True, w3)))"

subsection \<open>What a run of a handler added to the log\<close>

definition issued :: "world \<Rightarrow> world \<Rightarrow> (op \<times> (cause + string)) list" where
  "issued w w' = drop (length (calls w)) (calls w')"

fun is_put :: "op \<times> (cause + string) \<Rightarrow> bool" where
  "is_put (PutOp key cType src, r) = True"
| "is_put (c, r) = False"

fun is_get :: "op \<times> (cause + string) \<Rightarrow> bool" where
  "is_get (GetMediaOp i uuid fileName, r) = True"
| "is_get (c, r) = False"

subsection \<open>Concrete requests, stores and environments\<close>

text \<open>
  A small codec: a file of four bytes is an image with these bounds, anything else does
  not decode; an encoded image is a format tag, its width and its height.
\<close>

definition demo_Decode :: "bytes \<Rightarrow> image option" where
  "demo_Decode b =
     (case b of
        [x0, y0, x1, y1] \<Rightarrow> Some \<lparr>Bounds = Rect (int x0) (int y0) (int x1) (int y1), Pix = b\<rparr>
      | _ \<Rightarrow> None)"

definition demo_Encode :: "image \<Rightarrow> Format \<Rightarrow> bytes option" where
  "demo_Encode img fmt =
     Some [(if fmt = PNG then 80 else 74), nat (Dx (Bounds img)), nat (Dy (Bounds img))]"

text \<open>
  An environment in which nothing fails: any extension is allowed, the name is taken
  as it is, the random bytes are all zero, and the blob store keeps the key it is given.
\<close>

definition demo_app :: App where
  "demo_app =
     \<lparr>MediaUpload_Extensions = [''*''],
      MediaUpload_Provider = ''filesystem'',
      unicode_ToLower = (\<lambda>s. s),
      makeFilename = (\<lambda>name. name),
      rand_Read = Some (\<lambda>k. 0),
      Decode = demo_Decode,
      Encode = demo_Encode,
      Lanczos = (\<lambda>img w h. []),
      NewFromURL = (\<lambda>q. \<lparr>pg_Offset = 0, pg_Limit = 20, pg_Page = 1, pg_PerPage = 20\<rparr>),
      matches = (\<lambda>q m. True),
      rename = (\<lambda>bs key. key),
      fails = (\<lambda>c. False)\<rparr>"


fun insert_delete_fail :: "op \<Rightarrow> bool" where
  "insert_delete_fail (InsertMediaOp fileName thumbName contentType meta provider) = True"
| "insert_delete_fail (DeleteOp key) = True"
| "insert_delete_fail c = False"

definition empty_world :: world where
  "empty_world = \<lparr>blobs = Map.empty, rows = [], next_id = 1, calls = []\<rparr>"

definition upload_request :: "string \<Rightarrow> string \<Rightarrow> bytes \<Rightarrow> Context" where
  "upload_request name cType content =
     \<lparr>FormFile = (\<lambda>field. if field = ''file''
                   then Some \<lparr>file_Filename = name, file_ContentType = cType,
                              file_Open = Some content\<rparr>
                   else None),
      Param = (\<lambda>p. []),
      FormValue = (\<lambda>p. []),
      URL_Query = []\<rparr>"

definition id_request :: "string \<Rightarrow> Context" where
  "id_request i =
     \<lparr>FormFile = (\<lambda>field. None),
      Param = (\<lambda>p. if p = ''id'' then i else []),
      FormValue = (\<lambda>p. []),
      URL_Query = []\<rparr>"

text \<open>
  The stores after \<^verbatim>\<open>cat.png\<close>, an image of 800 by 600, has been uploaded: its row, its
  blob and the blob of its thumbnail.
\<close>

definition cat_row :: Media where
  "cat_row = \<lparr>ID = 1, Filename = ''cat.png'', Thumb = ''thumb_cat.png'', ContentType = ''image/png'',
              Meta = [''width'' \<mapsto> 800, ''height'' \<mapsto> 600], Provider = ''filesystem''\<rparr>"

definition cat_world :: world where
  "cat_world = \<lparr>blobs = [''cat.png'' \<mapsto> \<lparr>blob_type = ''image/png'', blob_data = [0, 0, 800, 600]\<rparr>,
                         ''thumb_cat.png'' \<mapsto> \<lparr>blob_type = ''image/png'', blob_data = [80, 250, 188]\<rparr>],
                rows = [cat_row], next_id = 2, calls = []\<rparr>"

definition svg_request :: Context where
  "svg_request = upload_request ''logo.svg'' ''image/svg+xml'' [60, 115, 118, 103, 62]"


text \<open>
  A GIF whose first frame does not start at the origin: Go's decoder returns the frame
  with its own bounds, here from (10, 10) to (60, 60), a frame of 50 by 50.
\<close>

definition offset_gif_request :: Context where
  "offset_gif_request = upload_request ''anim.gif'' ''image/gif'' [10, 10, 60, 60]"

definition image_size :: "image \<Rightarrow> int \<times> int" where
  "image_size img = (Dx (Bounds img), Dy (Bounds img))"

definition recorded_size :: "Media \<Rightarrow> int option \<times> int option" where
  "recorded_size m = (Meta m ''width'', Meta m ''height'')"

text \<open>A blob store that keeps the key it is given and never hands back the empty key.\<close>

definition keyed_app :: App where
  "keyed_app = demo_app\<lparr>rename := (\<lambda>bs key. if key = [] then ''unnamed'' else key)\<rparr>"

text \<open>
  The upload of \<^verbatim>\<open>cat.png\<close>, and two environments with faults: in the first the insert
  into the media table fails, in the second the deletes of the blob store fail as well.
\<close>

definition cat_request :: Context where
  "cat_request = upload_request ''cat.png'' ''image/png'' [0, 0, 800, 600]"



text \<open>
  The media table after \<^verbatim>\<open>report.png\<close> has been uploaded twice, when the random
  suffix of the second upload was 000000.
\<close>

definition report_world :: world where
  "report_world =
     \<lparr>blobs = [''report.png'' \<mapsto> \<lparr>blob_type = ''image/png'', blob_data = [0, 0, 640, 480]\<rparr>,
               ''thumb_report.png'' \<mapsto> \<lparr>blob_type = ''image/png'', blob_data = [80, 250, 188]\<rparr>,
               ''report_000000.png'' \<mapsto> \<lparr>blob_type = ''image/png'', blob_data = [0, 0, 640, 480]\<rparr>,
               ''thumb_report_000000.png'' \<mapsto>
                 \<lparr>blob_type = ''image/png'', blob_data = [80, 250, 188]\<rparr>],
      rows = [\<lparr>ID = 1, Filename = ''report.png'', Thumb = ''thumb_report.png'',
                ContentType = ''image/png'',
                Meta = [''width'' \<mapsto> 640, ''height'' \<mapsto> 480], Provider = ''filesystem''\<rparr>,
              \<lparr>ID = 2, Filename = ''report_000000.png'', Thumb = ''thumb_report_000000.png'',
                ContentType = ''image/png'',
                Meta = [''width'' \<mapsto> 640, ''height'' \<mapsto> 480], Provider = ''filesystem''\<rparr>],
      next_id = 3,
      calls = []\<rparr>"

definition report_request :: Context where
  "report_request = upload_request ''report.png'' ''image/png'' [0, 0, 640, 480]"

text \<open>An image narrower than the thumbnail, 100 by 50, and the file that holds it.\<close>

definition narrow_image :: image where
  "narrow_image = \<lparr>Bounds = Rect 0 0 100 50, Pix = [0, 0, 100, 50]\<rparr>"

definition narrow_file :: FileHeader where
  "narrow_file = \<lparr>file_Filename = ''icon.png'', file_ContentType = ''image/png'',
                   file_Open = Some [0, 0, 100, 50]\<rparr>"

section \<open>Properties\<close>

lemmas go_defs = upload_ext_def Ext_def ToLower_def lower_byte_def is_ascii_def TrimPrefix_def
  TrimSuffix_def

lemmas port_defs = Put_def Delete_def GetMedia_def InsertMedia_def QueryMedia_def DeleteMedia_def
  log_call_def

lemmas upload_defs = handleUploadMedia_def upload_name_def upload_stored_def upload_deferred_def
  processImage_def inArray_def imageExts_def vectorExts_def thumbPrefix_def thumbnailSize_def
  generateRandomString_def appendSuffixToFilename_def Resize_def round_div_def Rect_def Dx_def
  Dy_def

lemmas demo_defs = demo_app_def demo_Decode_def demo_Encode_def empty_world_def
  upload_request_def id_request_def

subsection \<open>What each collaborator does to the world\<close>

lemma Put_world:
  assumes "Put app k ct d w = (r, w1)"
  shows "calls w1 = calls w @ [(PutOp k ct d, r)]"
    and "rows w1 = rows w"
    and "next_id w1 = next_id w"
    and "blobs w1 = (case r of Inl e \<Rightarrow> blobs w
                     | Inr s \<Rightarrow> (blobs w)(s \<mapsto> \<lparr>blob_type = ct, blob_data = d\<rparr>))"
    and "r = Inr s \<Longrightarrow> s = rename app (blobs w) k"
  using assms by (auto simp: Put_def log_call_def Let_def split: if_splits)

lemma Delete_world:
  shows "calls (snd (Delete app k w))
           = calls w @ [(DeleteOp k, if fails app (DeleteOp k) then Inl StorageFailure else Inr [])]"
    and "rows (snd (Delete app k w)) = rows w"
    and "next_id (snd (Delete app k w)) = next_id w"
    and "blobs (snd (Delete app k w))
           = (if fails app (DeleteOp k) then blobs w else (blobs w)(k := None))"
  by (simp_all add: Delete_def log_call_def)

lemma InsertMedia_world:
  assumes "InsertMedia app f t ct meta p w = (r, w1)"
  shows "calls w1 = calls w @ [(InsertMediaOp f t ct meta p, map_sum id Filename r)]"
    and "blobs w1 = blobs w"
    and "r = Inr m \<Longrightarrow>
           m = \<lparr>ID = next_id w, Filename = f, Thumb = t, ContentType = ct, Meta = meta, Provider = p\<rparr>"
  using assms by (auto simp: InsertMedia_def log_call_def Let_def split: if_splits)

lemma GetMedia_world:
  assumes "GetMedia app i u f w = (r, w1)"
  shows "calls w1 = calls w @ [(GetMediaOp i u f, map_sum id Filename r)]"
    and "blobs w1 = blobs w"
    and "rows w1 = rows w"
    and "next_id w1 = next_id w"
  using assms by (auto simp: GetMedia_def log_call_def Let_def)

lemma upload_name_world:
  assumes "upload_name app file w = (r, w1)"
  shows "\<exists>g. calls w1 = calls w @ [(GetMediaOp 0 [] (makeFilename app (file_Filename file)), g)]"
    and "blobs w1 = blobs w"
    and "rows w1 = rows w"
    and "next_id w1 = next_id w"
proof -
  obtain g w0 where g: "GetMedia app 0 [] (makeFilename app (file_Filename file)) w = (g, w0)"
    by (cases "GetMedia app 0 [] (makeFilename app (file_Filename file)) w")
  from assms g have "w1 = w0"
    by (auto simp: upload_name_def Let_def split: sum.splits option.splits)
  with GetMedia_world [OF g]
  show "\<exists>g. calls w1 = calls w @ [(GetMediaOp 0 [] (makeFilename app (file_Filename file)), g)]"
    and "blobs w1 = blobs w" and "rows w1 = rows w" and "next_id w1 = next_id w"
    by auto
qed

lemma upload_stored_paths:
  assumes "upload_stored app file ext ct fName w = (res, cu, tn, w3)"
  shows "(inArray ext imageExts \<and>
           (\<exists>err. processImage app file = Inl err \<and> res = Inl (ErrorResizing err)
                  \<and> cu \<and> tn = [] \<and> w3 = w))
       \<or> (inArray ext imageExts \<and>
           (\<exists>t wd ht err. processImage app file = Inr (t, wd, ht)
                  \<and> Put app (thumbPrefix @ fName) ct t w = (Inl err, w3)
                  \<and> res = Inl (ErrorSavingThumbnail err) \<and> cu \<and> tn = []))
       \<or> (inArray ext imageExts \<and>
           (\<exists>t wd ht tf w1 r. processImage app file = Inr (t, wd, ht)
                  \<and> Put app (thumbPrefix @ fName) ct t w = (Inr tf, w1)
                  \<and> tn = (if inArray ext vectorExts then fName else tf)
                  \<and> InsertMedia app fName tn ct [''width'' \<mapsto> wd, ''height'' \<mapsto> ht]
                        (MediaUpload_Provider app) w1 = (r, w3)
                  \<and> res = map_sum CoreErr id r \<and> cu = isl r))
       \<or> (\<not> inArray ext imageExts \<and>
           (\<exists>r. tn = (if inArray ext vectorExts then fName else [])
                  \<and> InsertMedia app fName tn ct Map.empty (MediaUpload_Provider app) w = (r, w3)
                  \<and> res = map_sum CoreErr id r \<and> cu = isl r))"
proof (cases "inArray ext imageExts")
  case False
  with assms show ?thesis
    by (auto simp: upload_stored_def Let_def split: prod.splits sum.splits)
next
  case img: True
  show ?thesis
  proof (cases "processImage app file")
    case (Inl err)
    with assms img show ?thesis
      by (simp add: upload_stored_def Let_def)
  next
    case (Inr p)
    then obtain t wd ht where p: "processImage app file = Inr (t, wd, ht)"
      by (cases p) auto
    obtain r1 w1 where put: "Put app (thumbPrefix @ fName) ct t w = (r1, w1)"
      by (cases "Put app (thumbPrefix @ fName) ct t w")
    show ?thesis
    proof (cases r1)
      case (Inl err)
      with assms img p put show ?thesis
        by (simp add: upload_stored_def Let_def)
    next
      case (Inr tf)
      with assms img p put show ?thesis
        by (auto simp: upload_stored_def Let_def split: prod.splits sum.splits)
    qed
  qed
qed

lemma handleUploadMedia_stored:
  assumes "FormFile c ''file'' = Some file"
    and "handleUploadMedia app c w = (res, w')"
  shows "(w' = w \<and>
            (file_Open file = None \<and> res = Inl ErrorReadingFile
             \<or> \<not> inArray ''*'' (MediaUpload_Extensions app)
                 \<and> \<not> inArray (upload_ext app file) (MediaUpload_Extensions app)
                 \<and> res = Inl (UnsupportedFileType (upload_ext app file))))
       \<or> (\<exists>src w1. file_Open file = Some src \<and> upload_name app file w = (Inl InternalError, w1)
              \<and> res = Inl InternalError \<and> w' = w1)
       \<or> (\<exists>src fName w1 err. file_Open file = Some src \<and> upload_name app file w = (Inr fName, w1)
              \<and> Put app fName (file_ContentType file) src w1 = (Inl err, w')
              \<and> res = Inl (ErrorUploading err))
       \<or> (\<exists>src fName w1 stored w2 cu tn w3. file_Open file = Some src
              \<and> upload_name app file w = (Inr fName, w1)
              \<and> Put app fName (file_ContentType file) src w1 = (Inr stored, w2)
              \<and> upload_stored app file (upload_ext app file) (file_ContentType file) stored w2
                   = (res, cu, tn, w3)
              \<and> w' = upload_deferred app stored cu tn w3)"
proof (cases "file_Open file")
  case None
  with assms show ?thesis
    by (auto simp: handleUploadMedia_def)
next
  case (Some src)
  show ?thesis
  proof (cases "\<not> inArray ''*'' (MediaUpload_Extensions app)
                \<and> \<not> inArray (upload_ext app file) (MediaUpload_Extensions app)")
    case True
    with assms Some show ?thesis
      by (auto simp: handleUploadMedia_def Let_def)
  next
    case allowed: False
    obtain rn w1 where name: "upload_name app file w = (rn, w1)"
      by (cases "upload_name app file w")
    show ?thesis
    proof (cases rn)
      case (Inl e)
      with name have "e = InternalError"
        by (auto simp: upload_name_def Let_def split: prod.splits sum.splits option.splits)
      with assms Some allowed name Inl show ?thesis
        by (auto simp: handleUploadMedia_def Let_def)
    next
      case (Inr fName)
      obtain rp w2 where put: "Put app fName (file_ContentType file) src w1 = (rp, w2)"
        by (cases "Put app fName (file_ContentType file) src w1")
      show ?thesis
      proof (cases rp)
        case (Inl err)
        with assms Some allowed name Inr put show ?thesis
          by (auto simp: handleUploadMedia_def Let_def)
      next
        case stored: (Inr stored)
        obtain r cu tn w3 where
          st: "upload_stored app file (upload_ext app file) (file_ContentType file) stored w2
                 = (r, cu, tn, w3)"
          by (cases "upload_stored app file (upload_ext app file) (file_ContentType file) stored w2")
        with assms Some allowed name Inr put stored show ?thesis
          by (auto simp: handleUploadMedia_def Let_def)
      qed
    qed
  qed
qed

lemma upload_deferred_world:
  shows "calls (upload_deferred app fName cu tn w)
           = calls w @ (if cu then
                 (DeleteOp fName, if fails app (DeleteOp fName) then Inl StorageFailure else Inr [])
                 # (if tn \<noteq> [] then [(DeleteOp tn, if fails app (DeleteOp tn) then Inl StorageFailure else Inr [])] else [])
               else [])"
    and "blobs (upload_deferred app fName cu tn w)
           = (if cu then
                (if tn \<noteq> [] \<and> \<not> fails app (DeleteOp tn)
                 then (if fails app (DeleteOp fName) then blobs w
                       else (blobs w)(fName := None))(tn := None)
                 else (if fails app (DeleteOp fName) then blobs w else (blobs w)(fName := None)))
              else blobs w)"
    and "rows (upload_deferred app fName cu tn w) = rows w"
  by (simp_all add: upload_deferred_def Let_def Delete_world)


lemma processImage_Inr:
  assumes "processImage app file = Inr (t, wd, ht)"
  shows "\<exists>src img. file_Open file = Some src \<and> Decode app src = Some img
           \<and> Encode app (Resize img thumbnailSize 0 (Lanczos app)) PNG = Some t
           \<and> wd = X (MaxPt (Bounds img)) \<and> ht = Y (MaxPt (Bounds img))"
  using assms by (auto simp: processImage_def Let_def split: option.splits)

lemmas Atoi_defs = Atoi_def ParseInt_def ParseUint_def maxUint64_def digit_val_def

lemma Atoi_syntax: "snd (Atoi s) = Some ErrSyntax \<Longrightarrow> fst (Atoi s) = 0"
  by (auto simp: Atoi_def ParseInt_def Let_def split: if_splits option.splits prod.splits)

lemma Atoi_empty: "Atoi [] = (0, Some ErrSyntax)"
  by (simp add: Atoi_def ParseInt_def)

lemma parse_digits_None: "\<not> list_all is_digit body \<Longrightarrow> parse_digits body n = None"
  by (induction body arbitrary: n) (auto simp: is_digit_def split: option.splits)

lemma Atoi_short_not_numeric:
  assumes "length s < 19"
    and "\<not> numeric s"
  shows "snd (Atoi s) = Some ErrSyntax"
proof (cases "s = []")
  case True
  then show ?thesis
    by (simp add: Atoi_empty)
next
  case False
  define body where "body = (if hd s = CHR ''-'' \<or> hd s = CHR ''+'' then tl s else s)"
  from False assms(2) have "body = [] \<or> \<not> list_all is_digit body"
    by (auto simp: numeric_def body_def Let_def)
  then have "body = [] \<or> parse_digits body 0 = None"
    by (auto simp: parse_digits_None)
  with False assms(1) show ?thesis
    unfolding Atoi_def body_def [symmetric] Let_def by auto
qed

lemma round_div_round:
  assumes "0 < b"
  shows "round_div a b = round (real_of_int a / real_of_int b)"
proof -
  have "real_of_int a / real_of_int b + 1 / 2 = real_of_int (2 * a + b) / real_of_int (2 * b)"
    using assms by (simp add: field_simps)
  then have "round (real_of_int a / real_of_int b) = \<lfloor>real_of_int (2 * a + b) / real_of_int (2 * b)\<rfloor>"
    by (simp add: round_def)
  also have "\<dots> = (2 * a + b) div (2 * b)"
    by (rule floor_divide_of_int_eq)
  finally show ?thesis
    by (simp add: round_div_def)
qed

lemma upload_cases:
  assumes "FormFile c ''file'' = Some file"
    and "handleUploadMedia app c w = (res, w')"
  obtains (early) "w' = w"
      "file_Open file = None \<and> res = Inl ErrorReadingFile
       \<or> \<not> inArray ''*'' (MediaUpload_Extensions app)
           \<and> \<not> inArray (upload_ext app file) (MediaUpload_Extensions app)
           \<and> res = Inl (UnsupportedFileType (upload_ext app file))"
    | (norand) src w1 where "file_Open file = Some src"
        "upload_name app file w = (Inl InternalError, w1)" "res = Inl InternalError" "w' = w1"
    | (noput) src fName w1 err where "file_Open file = Some src"
        "upload_name app file w = (Inr fName, w1)"
        "Put app fName (file_ContentType file) src w1 = (Inl err, w')"
        "res = Inl (ErrorUploading err)"
    | (stored) src fName w1 stored w2 cu tn w3 where "file_Open file = Some src"
        "upload_name app file w = (Inr fName, w1)"
        "Put app fName (file_ContentType file) src w1 = (Inr stored, w2)"
        "upload_stored app file (upload_ext app file) (file_ContentType file) stored w2
           = (res, cu, tn, w3)"
        "w' = upload_deferred app stored cu tn w3"
  using handleUploadMedia_stored [OF assms] by blast

lemma upload_stored_cases:
  assumes "upload_stored app file ext ct fName w = (res, cu, tn, w3)"
  obtains (noimage) err where "inArray ext imageExts" "processImage app file = Inl err"
        "res = Inl (ErrorResizing err)" "cu" "tn = []" "w3 = w"
    | (nothumb) t wd ht err where "inArray ext imageExts"
        "processImage app file = Inr (t, wd, ht)"
        "Put app (thumbPrefix @ fName) ct t w = (Inl err, w3)"
        "res = Inl (ErrorSavingThumbnail err)" "cu" "tn = []"
    | (raster) t wd ht tf w1 r where "inArray ext imageExts"
        "processImage app file = Inr (t, wd, ht)"
        "Put app (thumbPrefix @ fName) ct t w = (Inr tf, w1)"
        "tn = (if inArray ext vectorExts then fName else tf)"
        "InsertMedia app fName tn ct [''width'' \<mapsto> wd, ''height'' \<mapsto> ht]
           (MediaUpload_Provider app) w1 = (r, w3)"
        "res = map_sum CoreErr id r" "cu = isl r"
    | (other) r where "\<not> inArray ext imageExts"
        "tn = (if inArray ext vectorExts then fName else [])"
        "InsertMedia app fName tn ct Map.empty (MediaUpload_Provider app) w = (r, w3)"
        "res = map_sum CoreErr id r" "cu = isl r"
  using upload_stored_paths [OF assms] by blast

lemma raster_not_vector: "inArray ext imageExts \<Longrightarrow> \<not> inArray ext vectorExts"
  by (auto simp: inArray_def imageExts_def vectorExts_def)

lemma upload_name_found:
  assumes "fst (GetMedia app 0 [] (makeFilename app (file_Filename file)) w) = Inr found"
    and "rand_Read app = Some rnd"
  shows "fst (upload_name app file w)
          = Inr (appendSuffixToFilename (makeFilename app (file_Filename file))
                   (map (\<lambda>k. dictionary ! (rnd k mod 62)) [0..<6]))"
  using assms
  by (cases "GetMedia app 0 [] (makeFilename app (file_Filename file)) w")
     (simp add: upload_name_def generateRandomString_def Let_def)

lemma dictionary_alphanumeric: "dictionary ! (n mod 62) \<in> set dictionary"
proof -
  have "length dictionary = 62"
    by (simp add: dictionary_def)
  then show ?thesis
    by (simp add: nth_mem)
qed

lemma appendSuffixToFilename_longer:
  "length fName < length (appendSuffixToFilename fName suffix)"
  by (simp add: appendSuffixToFilename_def TrimSuffix_def Let_def)

lemma upload_stored_no_get:
  assumes "upload_stored app file ext ct fName w = (res, cu, tn, w3)"
  shows "\<exists>xs. calls w3 = calls w @ xs \<and> filter is_get xs = []"
  using assms
proof (cases rule: upload_stored_cases)
  case (noimage err)
  then show ?thesis by simp
next
  case (nothumb t wd ht err)
  from Put_world(1) [OF nothumb(3)] show ?thesis by simp
next
  case (raster t wd ht tf w1 r)
  from Put_world(1) [OF raster(3)] InsertMedia_world(1) [OF raster(5)] show ?thesis by simp
next
  case (other r)
  from InsertMedia_world(1) [OF other(3)] show ?thesis by simp
qed

subsection \<open>Cleanup after a failed upload\<close>




subsection \<open>A name that is taken\<close>

text \<open>
  Claim C2, as the code has it. When a row with the sanitised name exists, the upload
  makes one candidate: the name with "_" and a random suffix of six alphanumeric
  characters put before its extension. The candidate differs from the sanitised name.
  It is handed to the blob store as it is: the lookup of the sanitised name is the only
  lookup of the run, and the candidate is not looked up.
\<close>

theorem upload_collision_suffix:
  assumes "FormFile c ''file'' = Some file"
    and "file_Open file = Some src"
    and "''*'' \<in> set (MediaUpload_Extensions app)
         \<or> upload_ext app file \<in> set (MediaUpload_Extensions app)"
    and "fName = makeFilename app (file_Filename file)"
    and "fst (GetMedia app 0 [] fName w) = Inr found"
    and "rand_Read app = Some rnd"
    and "handleUploadMedia app c w = (res, w')"
  shows "\<exists>suffix. generateRandomString app 6 = Some suffix
          \<and> length suffix = 6 \<and> set suffix \<subseteq> set dictionary
          \<and> TrimSuffix fName (Ext fName) @ ''_'' @ suffix @ Ext fName \<noteq> fName
          \<and> take 2 (map fst (issued w w'))
              = [GetMediaOp 0 [] fName,
                 PutOp (TrimSuffix fName (Ext fName) @ ''_'' @ suffix @ Ext fName)
                   (file_ContentType file) src]
          \<and> length (filter is_get (issued w w')) = 1"
proof -
  define suffix where "suffix = map (\<lambda>k. dictionary ! (rnd k mod 62)) [0..<6]"
  define cand where "cand = TrimSuffix fName (Ext fName) @ ''_'' @ suffix @ Ext fName"
  have gen: "generateRandomString app 6 = Some suffix"
    using assms(6) by (simp add: generateRandomString_def suffix_def)
  have len: "length suffix = 6"
    by (simp add: suffix_def)
  have alnum: "set suffix \<subseteq> set dictionary"
    using dictionary_alphanumeric by (auto simp: suffix_def)
  have cand: "appendSuffixToFilename fName suffix = cand"
    by (simp add: appendSuffixToFilename_def cand_def Let_def)
  from appendSuffixToFilename_longer [of fName suffix] cand have differs: "cand \<noteq> fName"
    by auto
  from upload_name_found [OF assms(5) [unfolded assms(4)] assms(6)] cand assms(4)
  have name: "fst (upload_name app file w) = Inr cand"
    by (simp add: suffix_def)
  have trace: "take 2 (map fst (issued w w'))
                = [GetMediaOp 0 [] fName, PutOp cand (file_ContentType file) src]
               \<and> length (filter is_get (issued w w')) = 1"
    using assms(1,7)
  proof (cases rule: upload_cases)
    case early
    with assms(2,3) show ?thesis
      by (auto simp: inArray_def)
  next
    case (norand src' w1)
    with name show ?thesis
      by simp
  next
    case (noput src' n w1 err)
    with name assms(2) have "n = cand" "src' = src"
      by simp_all
    with upload_name_world(1) [OF noput(2)] Put_world(1) [OF noput(3)] assms(4) show ?thesis
      by (auto simp: issued_def)
  next
    case (stored src' n w1 stored w2 cu tn w3)
    with name assms(2) have n: "n = cand" "src' = src"
      by simp_all
    from upload_stored_no_get [OF stored(4)]
    obtain xs where xs: "calls w3 = calls w2 @ xs" "filter is_get xs = []"
      by auto
    from upload_name_world(1) [OF stored(2)] Put_world(1) [OF stored(3)] n xs assms(4) stored(5)
    show ?thesis
      by (auto simp: issued_def upload_deferred_world)
  qed
  with gen len alnum differs show ?thesis
    unfolding cand_def by blast
qed

theorem upload_collision_suffix_witness:
  "fst (GetMedia demo_app 0 [] ''cat.png'' cat_world) = Inr cat_row
   \<and> generateRandomString demo_app 6 = Some ''000000''
   \<and> take 2 (map fst (issued cat_world (snd (handleUploadMedia demo_app cat_request cat_world))))
       = [GetMediaOp 0 [] ''cat.png'', PutOp ''cat_000000.png'' ''image/png'' [0, 0, 800, 600]]
   \<and> length (filter is_get (issued cat_world (snd (handleUploadMedia demo_app cat_request cat_world)))) = 1"
proof -
  let ?file = "\<lparr>file_Filename = ''cat.png'', file_ContentType = ''image/png'',
                 file_Open = Some [0, 0, 800, 600]\<rparr>"
  have f: "FormFile cat_request ''file'' = Some ?file"
    by (simp add: cat_request_def upload_request_def)
  have o: "file_Open ?file = Some [0, 0, 800, 600]"
    by simp
  have a: "''*'' \<in> set (MediaUpload_Extensions demo_app)
           \<or> upload_ext demo_app ?file \<in> set (MediaUpload_Extensions demo_app)"
    by (simp add: demo_app_def)
  have n: "''cat.png'' = makeFilename demo_app (file_Filename ?file)"
    by (simp add: demo_app_def)
  have g: "fst (GetMedia demo_app 0 [] ''cat.png'' cat_world) = Inr cat_row"
    by (simp add: GetMedia_def demo_app_def cat_world_def cat_row_def Let_def)
  have r: "rand_Read demo_app = Some (\<lambda>k. 0)"
    by (simp add: demo_app_def)
  have s: "generateRandomString demo_app 6 = Some ''000000''"
    by (simp add: generateRandomString_def demo_app_def dictionary_def upt_rec)
  have t: "TrimSuffix ''cat.png'' ''.png'' = ''cat''" "Ext ''cat.png'' = ''.png''"
    by (simp_all add: TrimSuffix_def Ext_def)
  from upload_collision_suffix [OF f o a n g r surjective_pairing] g s show ?thesis
    by (simp add: t)
qed

text \<open>
  Claim C2, as it is stated, fails: the existence check is not made again on the
  candidate. The media table holds \<^verbatim>\<open>report.png\<close> and \<^verbatim>\<open>report_000000.png\<close>; a third
  upload of \<^verbatim>\<open>report.png\<close> draws the suffix 000000 again. The only lookup of the run is
  the one of \<^verbatim>\<open>report.png\<close>, and the upload succeeds under the name
  \<^verbatim>\<open>report_000000.png\<close>, which a row stored before already has.
\<close>

theorem upload_collision_counterexample:
  "map Filename (rows report_world) = [''report.png'', ''report_000000.png'']
   \<and> map_sum id Filename (fst (handleUploadMedia demo_app report_request report_world))
       = Inr ''report_000000.png''
   \<and> map fst (filter is_get (issued report_world
         (snd (handleUploadMedia demo_app report_request report_world))))
       = [GetMediaOp 0 [] ''report.png'']
   \<and> map Filename (rows (snd (handleUploadMedia demo_app report_request report_world)))
       = [''report.png'', ''report_000000.png'', ''report_000000.png'']"
  by (simp add: go_defs port_defs upload_defs demo_defs report_world_def report_request_def
        dictionary_def issued_def upt_rec Let_def)

subsection \<open>The size of the thumbnail\<close>

text \<open>
  Claim C3, as the code has it. \<^verbatim>\<open>processImage\<close> asks for the width
  \<^verbatim>\<open>thumbnailSize\<close> = 250 and the height 0 ("auto") whatever the width of the original
  is, and encodes the result as PNG. So for an original of width W > 0 and height H the
  thumbnail is 250 wide, also when W is below 250, and its height is
  round(250 * H / W). The spec does not say what becomes of a height that rounds to 0,
  so the statement is about the images whose proportional height is at least 1.
\<close>

theorem thumbnail_dimensions:
  assumes "file_Open file = Some src"
    and "Decode app src = Some img"
    and "0 < Dx (Bounds img)"
    and "1 \<le> round (250 * real_of_int (Dy (Bounds img)) / real_of_int (Dx (Bounds img)))"
    and "processImage app file = Inr (out, wd, ht)"
  shows "\<exists>thumb. thumb = Resize img thumbnailSize 0 (Lanczos app)
          \<and> Encode app thumb PNG = Some out
          \<and> Dx (Bounds thumb) = 250
          \<and> Dy (Bounds thumb)
              = round (250 * real_of_int (Dy (Bounds img)) / real_of_int (Dx (Bounds img)))"
proof -
  from processImage_Inr [OF assms(5)] assms(1,2)
  have enc: "Encode app (Resize img thumbnailSize 0 (Lanczos app)) PNG = Some out"
    by auto
  have wdt: "Dx (Bounds (Resize img thumbnailSize 0 (Lanczos app))) = 250"
    by (simp add: Resize_def Rect_def Dx_def thumbnailSize_def Let_def)
  have "Dy (Bounds (Resize img thumbnailSize 0 (Lanczos app)))
          = round_div (250 * Dy (Bounds img)) (Dx (Bounds img))"
    by (simp add: Resize_def Rect_def Dy_def thumbnailSize_def Let_def)
  also have "\<dots> = round (real_of_int (250 * Dy (Bounds img)) / real_of_int (Dx (Bounds img)))"
    by (rule round_div_round [OF assms(3)])
  finally have hgt: "Dy (Bounds (Resize img thumbnailSize 0 (Lanczos app)))
          = round (250 * real_of_int (Dy (Bounds img)) / real_of_int (Dx (Bounds img)))"
    by simp
  from enc wdt hgt show ?thesis
    by blast
qed

theorem thumbnail_dimensions_witness:
  "Decode demo_app [0, 0, 800, 600] = Some \<lparr>Bounds = Rect 0 0 800 600, Pix = [0, 0, 800, 600]\<rparr>
   \<and> processImage demo_app \<lparr>file_Filename = ''cat.png'', file_ContentType = ''image/png'',
                              file_Open = Some [0, 0, 800, 600]\<rparr> = Inr ([80, 250, 188], 800, 600)
   \<and> round (250 * real_of_int 600 / real_of_int 800) = 188
   \<and> image_size (Resize \<lparr>Bounds = Rect 0 0 800 600, Pix = [0, 0, 800, 600]\<rparr> thumbnailSize 0
        (Lanczos demo_app)) = (250, 188)"
proof -
  let ?file = "\<lparr>file_Filename = ''cat.png'', file_ContentType = ''image/png'',
                 file_Open = Some [0, 0, 800, 600]\<rparr>"
  let ?img = "\<lparr>Bounds = Rect 0 0 800 600, Pix = [0, 0, 800, 600]\<rparr>"
  have o: "file_Open ?file = Some [0, 0, 800, 600]"
    by simp
  have d: "Decode demo_app [0, 0, 800, 600] = Some ?img"
    by (simp add: demo_app_def demo_Decode_def)
  have x: "Dx (Rect 0 0 800 600) = 800" and y: "Dy (Rect 0 0 800 600) = 600"
    by (simp_all add: Dx_def Dy_def Rect_def)
  have rd: "round (250 * real_of_int 600 / real_of_int 800) = 188"
    using round_div_round [of 800 "250 * 600"] by (simp add: round_div_def)
  have p: "processImage demo_app ?file = Inr ([80, 250, 188], 800, 600)"
    by (simp add: processImage_def demo_app_def demo_Decode_def demo_Encode_def Resize_def
          Rect_def Dx_def Dy_def round_div_def thumbnailSize_def Let_def)
  have w: "0 < Dx (Bounds ?img)"
    by (simp add: x)
  have h: "1 \<le> round (250 * real_of_int (Dy (Bounds ?img)) / real_of_int (Dx (Bounds ?img)))"
    using rd by (simp add: x y)
  from thumbnail_dimensions [OF o d w h p] d p rd show ?thesis
    by (auto simp: image_size_def x y)
qed

text \<open>
  Claim C3, as it is stated, fails for an original narrower than 250: the thumbnail of
  an image of 100 by 50 is 250 wide (and 125 high), not min(250, 100) = 100 wide.
\<close>

theorem thumbnail_width_counterexample:
  "Decode demo_app [0, 0, 100, 50] = Some narrow_image
   \<and> image_size narrow_image = (100, 50)
   \<and> processImage demo_app narrow_file = Inr ([80, 250, 125], 100, 50)
   \<and> image_size (Resize narrow_image thumbnailSize 0 (Lanczos demo_app)) = (250, 125)
   \<and> min thumbnailSize (Dx (Bounds narrow_image)) = 100"
  by (simp add: processImage_def demo_app_def demo_Decode_def demo_Encode_def Resize_def
        Rect_def Dx_def Dy_def round_div_def thumbnailSize_def image_size_def narrow_image_def
        narrow_file_def Let_def)

subsection \<open>When a thumbnail name is set\<close>

text \<open>
  Claim C4, as the code has it. The handler decides on the lowercased extension of the
  uploaded file name, never on the content type the client declared: for every row
  created by a successful upload, in a blob store that never returns the empty key, the
  thumbnail name is non-empty if and only if that extension is in the raster set (gif,
  png, jpg, jpeg) or in the vector set (svg).
\<close>

theorem thumbnail_set_iff_extension:
  assumes "FormFile c ''file'' = Some file"
    and "handleUploadMedia app c w = (Inr m, w')"
    and "\<forall>bs key. rename app bs key \<noteq> []"
  shows "Thumb m \<noteq> [] \<longleftrightarrow> upload_ext app file \<in> set imageExts \<union> set vectorExts"
  using assms(1,2)
proof (cases rule: upload_cases)
  case (stored src fName w1 stored w2 cu tn w3)
  from Put_world(5) [OF stored(3) refl] assms(3) have nonempty: "stored \<noteq> []"
    by simp
  from stored(4) show ?thesis
  proof (cases rule: upload_stored_cases)
    case (raster t wd ht tf w4 r)
    from Put_world(5) [OF raster(3) refl] assms(3) have "tf \<noteq> []"
      by simp
    with raster(1) raster_not_vector [OF raster(1)] raster(4) InsertMedia_world(3) [OF raster(5)]
      raster(6)
    show ?thesis
      by (cases r) (auto simp: inArray_def)
  next
    case (other r)
    with nonempty InsertMedia_world(3) [OF other(3)] show ?thesis
      by (cases r) (auto simp: inArray_def)
  qed simp_all
qed simp_all

theorem thumbnail_set_iff_extension_witness:
  "(\<forall>bs key. rename keyed_app bs key \<noteq> [])
   \<and> upload_ext keyed_app \<lparr>file_Filename = ''cat.png'', file_ContentType = ''text/plain'',
                  file_Open = Some [0, 0, 800, 600]\<rparr> \<in> set imageExts \<union> set vectorExts
   \<and> map_sum id Thumb (fst (handleUploadMedia keyed_app
        (upload_request ''cat.png'' ''text/plain'' [0, 0, 800, 600]) empty_world))
       = Inr ''thumb_cat.png''"
proof -
  let ?file = "\<lparr>file_Filename = ''cat.png'', file_ContentType = ''text/plain'',
                 file_Open = Some [0, 0, 800, 600]\<rparr>"
  let ?c = "upload_request ''cat.png'' ''text/plain'' [0, 0, 800, 600]"
  let ?m = "\<lparr>ID = 1, Filename = ''cat.png'', Thumb = ''thumb_cat.png'',
              ContentType = ''text/plain'',
              Meta = [''width'' \<mapsto> 800, ''height'' \<mapsto> 600], Provider = ''filesystem''\<rparr>"
  have f: "FormFile ?c ''file'' = Some ?file"
    by (simp add: upload_request_def)
  have n: "\<forall>bs key. rename keyed_app bs key \<noteq> []"
    by (simp add: keyed_app_def)
  have r: "fst (handleUploadMedia keyed_app ?c empty_world) = Inr ?m"
    by (simp add: go_defs port_defs upload_defs demo_defs keyed_app_def Let_def)
  then have p: "handleUploadMedia keyed_app ?c empty_world
                 = (Inr ?m, snd (handleUploadMedia keyed_app ?c empty_world))"
    by (simp add: prod_eq_iff)
  from thumbnail_set_iff_extension [OF f p n] r n show ?thesis
    by simp
qed

text \<open>
  Claim C4, as it is stated, fails. Two uploads declare the same content type,
  \<^verbatim>\<open>image/png\<close>: the file named \<^verbatim>\<open>cat.png\<close> gets a thumbnail name, the file named
  \<^verbatim>\<open>cat.txt\<close> gets none. Whether a thumbnail name is set is not a function of the
  content type.
\<close>

theorem thumbnail_content_type_counterexample:
  "map_sum id ContentType (fst (handleUploadMedia demo_app
      (upload_request ''cat.png'' ''image/png'' [0, 0, 800, 600]) empty_world)) = Inr ''image/png''
   \<and> map_sum id Thumb (fst (handleUploadMedia demo_app
      (upload_request ''cat.png'' ''image/png'' [0, 0, 800, 600]) empty_world)) = Inr ''thumb_cat.png''
   \<and> map_sum id ContentType (fst (handleUploadMedia demo_app
      (upload_request ''cat.txt'' ''image/png'' [0, 0, 800, 600]) empty_world)) = Inr ''image/png''
   \<and> map_sum id Thumb (fst (handleUploadMedia demo_app
      (upload_request ''cat.txt'' ''image/png'' [0, 0, 800, 600]) empty_world)) = Inr []"
  by (simp add: go_defs port_defs upload_defs demo_defs Let_def)

subsection \<open>The recorded width and height\<close>

text \<open>
  What the handler records: for an extension in the raster set the map of the row holds,
  under "width" and "height", the two coordinates of the \<^verbatim>\<open>Max\<close> corner of the bounds
  of the decoded original (never anything of the thumbnail); for any other extension
  the map is empty.
\<close>

lemma upload_meta:
  assumes "FormFile c ''file'' = Some file"
    and "handleUploadMedia app c w = (Inr m, w')"
  shows "if upload_ext app file \<in> set imageExts
         then (\<exists>src img. file_Open file = Some src \<and> Decode app src = Some img
                 \<and> Meta m = [''width'' \<mapsto> X (MaxPt (Bounds img)),
                              ''height'' \<mapsto> Y (MaxPt (Bounds img))])
         else Meta m = Map.empty"
  using assms
proof (cases rule: upload_cases)
  case (stored src fName w1 stored w2 cu tn w3)
  from stored(4) show ?thesis
  proof (cases rule: upload_stored_cases)
    case (raster t wd ht tf w4 r)
    from raster(6) have "r = Inr m"
      by (cases r) auto
    with InsertMedia_world(3) [OF raster(5)] processImage_Inr [OF raster(2)] raster(1)
    show ?thesis
      by (auto simp: inArray_def)
  next
    case (other r)
    from other(4) have "r = Inr m"
      by (cases r) auto
    with InsertMedia_world(3) [OF other(3)] other(1) show ?thesis
      by (auto simp: inArray_def)
  qed simp_all
qed auto

text \<open>
  Claim C5 fails on the code for an image whose bounds do not start at the origin. The
  first frame of the GIF \<^verbatim>\<open>anim.gif\<close> is 50 by 50 and sits at (10, 10): its bounds run
  from (10, 10) to (60, 60). The upload succeeds and records width 60 and height 60,
  the \<^verbatim>\<open>Max\<close> corner, where the image is 50 wide and 50 high.
\<close>

theorem offset_frame_recorded_size:
  "map_option image_size (Decode demo_app [10, 10, 60, 60]) = Some (50, 50)
   \<and> map_sum id recorded_size (fst (handleUploadMedia demo_app offset_gif_request empty_world))
       = Inr (Some 60, Some 60)"
  by (simp add: go_defs port_defs upload_defs demo_defs offset_gif_request_def image_size_def
        recorded_size_def Let_def)

subsection \<open>Vector images\<close>

text \<open>
  Claim C6. An upload whose extension is in the vector set (svg) issues at most one put
  to the blob store, and when it succeeds it has issued exactly one, and the row it
  returns has its thumbnail name equal to its file name.
\<close>

theorem upload_vector:
  assumes "FormFile c ''file'' = Some file"
    and "upload_ext app file \<in> set vectorExts"
    and "handleUploadMedia app c w = (res, w')"
  shows "length (filter is_put (issued w w')) \<le> 1
    \<and> (\<forall>m. res = Inr m \<longrightarrow> Thumb m = Filename m \<and> length (filter is_put (issued w w')) = 1)"
  using assms(1,3)
proof (cases rule: upload_cases)
  case early
  then show ?thesis
    by (auto simp: issued_def)
next
  case (norand src w1)
  from upload_name_world(1) [OF norand(2)] norand(3,4) show ?thesis
    by (auto simp: issued_def)
next
  case (noput src fName w1 err)
  from upload_name_world(1) [OF noput(2)] Put_world(1) [OF noput(3)] noput(4) show ?thesis
    by (auto simp: issued_def)
next
  case (stored src fName w1 stored w2 cu tn w3)
  from assms(2) have vec: "inArray (upload_ext app file) vectorExts"
    and noimg: "\<not> inArray (upload_ext app file) imageExts"
    by (auto simp: vectorExts_def imageExts_def inArray_def)
  from stored(4) noimg vec obtain r where tn: "tn = stored"
    and ins: "InsertMedia app stored tn (file_ContentType file) Map.empty
                (MediaUpload_Provider app) w2 = (r, w3)"
    and res: "res = map_sum CoreErr id r"
    by (cases rule: upload_stored_cases) auto
  from upload_name_world(1) [OF stored(2)] Put_world(1) [OF stored(3)]
    InsertMedia_world(1) [OF ins]
  have "length (filter is_put (issued w w')) = 1"
    by (auto simp: issued_def stored(5) upload_deferred_world)
  moreover have "\<forall>m. res = Inr m \<longrightarrow> Thumb m = Filename m"
    using InsertMedia_world(3) [OF ins] res tn by (cases r) auto
  ultimately show ?thesis
    by simp
qed

theorem upload_vector_witness:
  "upload_ext demo_app \<lparr>file_Filename = ''logo.svg'', file_ContentType = ''image/svg+xml'',
               file_Open = Some [60, 115, 118, 103, 62]\<rparr> \<in> set vectorExts
   \<and> map_sum id Filename (fst (handleUploadMedia demo_app svg_request empty_world)) = Inr ''logo.svg''
   \<and> map_sum id Thumb (fst (handleUploadMedia demo_app svg_request empty_world)) = Inr ''logo.svg''
   \<and> length (filter is_put (issued empty_world (snd (handleUploadMedia demo_app svg_request empty_world)))) = 1"
proof -
  let ?file = "\<lparr>file_Filename = ''logo.svg'', file_ContentType = ''image/svg+xml'',
                 file_Open = Some [60, 115, 118, 103, 62]\<rparr>"
  have f: "FormFile svg_request ''file'' = Some ?file"
    by (simp add: svg_request_def upload_request_def)
  have v: "upload_ext demo_app ?file \<in> set vectorExts"
    by (simp add: go_defs vectorExts_def)
  have r: "fst (handleUploadMedia demo_app svg_request empty_world)
            = Inr \<lparr>ID = 1, Filename = ''logo.svg'', Thumb = ''logo.svg'', ContentType = ''image/svg+xml'',
                   Meta = Map.empty, Provider = ''filesystem''\<rparr>"
    by (simp add: go_defs port_defs upload_defs demo_defs svg_request_def Let_def)
  from upload_vector [where app = demo_app and w = empty_world, OF f v surjective_pairing] r v
  show ?thesis
    by simp
qed

subsection \<open>The allowlist of extensions\<close>



subsection \<open>Deleting\<close>

text \<open>
  Claim C8. \<^verbatim>\<open>handleDeleteMedia\<close> fails with the invalid-id error for every id below
  1 and leaves the world as it was. For an id from 1 on whose row the media table
  deletes, giving its file name, the handler answers true whether the deletes of the
  blobs fail or not, and it has called, in this order, the delete of the row, the
  delete of the blob of that name and the delete of the blob "thumb_" + name, whatever
  the thumbnail of the row was; the row is gone.
\<close>

theorem delete_media:
  assumes "i = fst (Atoi (Param c ''id''))"
  shows "(i < 1 \<longrightarrow> handleDeleteMedia app c w = (Inl InvalidID, w))
   \<and> (1 \<le> i \<longrightarrow> DeleteMedia app i w = (Inr fname, w1) \<longrightarrow>
          fst (handleDeleteMedia app c w) = Inr True
          \<and> map fst (issued w (snd (handleDeleteMedia app c w)))
              = [DeleteMediaOp i, DeleteOp fname, DeleteOp (thumbPrefix @ fname)]
          \<and> rows (snd (handleDeleteMedia app c w)) = rows w1
          \<and> find (\<lambda>m. ID m = i) (rows w1) = None)"
  using assms
  apply (auto simp: handleDeleteMedia_def Let_def port_defs issued_def find_None_iff split: if_splits option.splits)
  done



theorem delete_media_witness:
  "fst (Atoi (Param (id_request ''0'') ''id'')) < 1
   \<and> handleDeleteMedia demo_app (id_request ''0'') cat_world = (Inl InvalidID, cat_world)
   \<and> handleDeleteMedia demo_app (id_request ''abc'') cat_world = (Inl InvalidID, cat_world)
   \<and> 1 \<le> fst (Atoi (Param (id_request ''1'') ''id''))
   \<and> fst (DeleteMedia demo_app 1 cat_world) = Inr ''cat.png''
   \<and> fst (handleDeleteMedia demo_app (id_request ''1'') cat_world) = Inr True
   \<and> map fst (issued cat_world (snd (handleDeleteMedia demo_app (id_request ''1'') cat_world)))
       = [DeleteMediaOp 1, DeleteOp ''cat.png'', DeleteOp ''thumb_cat.png'']
   \<and> rows (snd (handleDeleteMedia demo_app (id_request ''1'') cat_world)) = []
   \<and> fst (handleDeleteMedia (demo_app\<lparr>fails := insert_delete_fail\<rparr>) (id_request ''1'') cat_world) = Inr True"
proof -
  have a0: "fst (Atoi (Param (id_request ''0'') ''id'')) = 0"
    and a1: "fst (Atoi (Param (id_request ''1'') ''id'')) = 1"
    and a2: "fst (Atoi (Param (id_request ''abc'') ''id'')) = 0"
    by (simp_all add: id_request_def Atoi_def digit_val_def Let_def)
  have d1: "fst (DeleteMedia demo_app 1 cat_world) = Inr ''cat.png''"
    and d1': "fst (DeleteMedia (demo_app\<lparr>fails := insert_delete_fail\<rparr>) 1 cat_world) = Inr ''cat.png''"
    by (simp_all add: DeleteMedia_def demo_app_def cat_world_def cat_row_def)
  have d: "DeleteMedia demo_app 1 cat_world
            = (Inr ''cat.png'', snd (DeleteMedia demo_app 1 cat_world))"
    and d': "DeleteMedia (demo_app\<lparr>fails := insert_delete_fail\<rparr>) 1 cat_world
            = (Inr ''cat.png'', snd (DeleteMedia (demo_app\<lparr>fails := insert_delete_fail\<rparr>) 1 cat_world))"
    using d1 d1' by (simp_all add: prod_eq_iff)
  have r: "rows (snd (DeleteMedia demo_app 1 cat_world)) = []"
    by (simp add: DeleteMedia_def demo_app_def cat_world_def cat_row_def log_call_def)
  from delete_media [of 0 "id_request ''0''" demo_app cat_world] a0
    delete_media [of 0 "id_request ''abc''" demo_app cat_world] a2
    delete_media [of 1 "id_request ''1''" demo_app cat_world "''cat.png''" "snd (DeleteMedia demo_app 1 cat_world)"]
    delete_media [of 1 "id_request ''1''" "demo_app\<lparr>fails := insert_delete_fail\<rparr>" cat_world "''cat.png''"
       "snd (DeleteMedia (demo_app\<lparr>fails := insert_delete_fail\<rparr>) 1 cat_world)"]
    a1 d d' r d1
  show ?thesis
    by (simp add: thumbPrefix_def)
qed

subsection \<open>Retrieval\<close>

text \<open>
  Claim C9, as the code has it. The handler parses the id parameter with
  \<^verbatim>\<open>strconv.Atoi\<close> and drops the error. When the parameter is absent (empty), is
  rejected by \<^verbatim>\<open>Atoi\<close> with a syntax error (as every id that is not numeric and is
  shorter than 19 bytes is), or parses to a value that is not positive,
  \<^verbatim>\<open>handleGetMedia\<close> does not fail with the invalid-id or the not-found error: its
  only call is the media query for the configured provider, with the filter text of the
  request and the offset and limit of the paginator, and its answer is the page of that
  query, or the error of the query. The lookup of one row is called exactly when the
  parsed id is strictly positive, and then it is the only call.
\<close>

theorem get_media_listing:
  assumes "i = fst (Atoi (Param c ''id''))"
    and "pg = NewFromURL app (URL_Query c)"
    and "q = QueryMedia app (MediaUpload_Provider app) (FormValue c ''query'')
               (pg_Offset pg) (pg_Limit pg) w"
    and "handleGetMedia app c w = (res, w')"
  shows "(Param c ''id'' = []
          \<or> (length (Param c ''id'') < 19 \<and> \<not> numeric (Param c ''id''))
          \<or> snd (Atoi (Param c ''id'')) = Some ErrSyntax
          \<or> i \<le> 0 \<longrightarrow>
            res \<noteq> Inl InvalidID \<and> res \<noteq> Inl (CoreErr NotFound)
            \<and> map fst (issued w w')
                = [QueryMediaOp (MediaUpload_Provider app) (FormValue c ''query'')
                     (pg_Offset pg) (pg_Limit pg)]
            \<and> w' = snd q
            \<and> res = (case fst q of
                       Inl err \<Rightarrow> Inl (CoreErr err)
                     | Inr (items, n) \<Rightarrow>
                         Inr (Many \<lparr>Results = items, Total = n, Page = pg_Page pg,
                                    PerPage = pg_PerPage pg\<rparr>)))
       \<and> (0 < i \<longrightarrow> map fst (issued w w') = [GetMediaOp i [] []])
       \<and> (filter is_get (issued w w') \<noteq> [] \<longrightarrow> 0 < i)"
proof -
  have listing: "res \<noteq> Inl InvalidID \<and> res \<noteq> Inl (CoreErr NotFound)
            \<and> map fst (issued w w')
                = [QueryMediaOp (MediaUpload_Provider app) (FormValue c ''query'')
                     (pg_Offset pg) (pg_Limit pg)]
            \<and> w' = snd q
            \<and> res = (case fst q of
                       Inl err \<Rightarrow> Inl (CoreErr err)
                     | Inr (items, n) \<Rightarrow>
                         Inr (Many \<lparr>Results = items, Total = n, Page = pg_Page pg,
                                    PerPage = pg_PerPage pg\<rparr>))"
    if "i \<le> 0"
    using that assms
    by (auto simp: handleGetMedia_def Let_def QueryMedia_def log_call_def issued_def
             split: if_splits)
  have "i \<le> 0"
    if "Param c ''id'' = []
        \<or> (length (Param c ''id'') < 19 \<and> \<not> numeric (Param c ''id''))
        \<or> snd (Atoi (Param c ''id'')) = Some ErrSyntax
        \<or> i \<le> 0"
    using that assms(1) Atoi_syntax [of "Param c ''id''"]
      Atoi_short_not_numeric [of "Param c ''id''"]
    by (auto simp: Atoi_empty)
  moreover have fetch: "map fst (issued w w') = [GetMediaOp i [] []]" if "0 < i"
    using that assms(1,4)
    by (cases "GetMedia app i [] [] w")
       (auto simp: handleGetMedia_def Let_def issued_def GetMedia_world(1) split: sum.splits)
  moreover have "0 < i" if "filter is_get (issued w w') \<noteq> []"
  proof (rule ccontr)
    assume "\<not> 0 < i"
    then have "i \<le> 0" by simp
    from listing [OF this] have "filter is_get (issued w w') = []"
      by (cases "issued w w'") auto
    with that show False by simp
  qed
  ultimately show ?thesis
    using listing by blast
qed

theorem get_media_listing_witness:
  "length (Param (id_request ''abc'') ''id'') < 19
   \<and> \<not> numeric (Param (id_request ''abc'') ''id'')
   \<and> snd (Atoi (Param (id_request ''abc'') ''id'')) = Some ErrSyntax
   \<and> fst (handleGetMedia demo_app (id_request ''abc'') cat_world)
       = Inr (Many \<lparr>Results = [cat_row], Total = 1, Page = 1, PerPage = 20\<rparr>)
   \<and> map fst (issued cat_world (snd (handleGetMedia demo_app (id_request ''abc'') cat_world)))
       = [QueryMediaOp ''filesystem'' [] 0 20]
   \<and> fst (handleGetMedia demo_app (id_request []) cat_world)
       = Inr (Many \<lparr>Results = [cat_row], Total = 1, Page = 1, PerPage = 20\<rparr>)
   \<and> fst (Atoi (Param (id_request ''-7'') ''id'')) = - 7
   \<and> fst (handleGetMedia demo_app (id_request ''-7'') cat_world)
       = Inr (Many \<lparr>Results = [cat_row], Total = 1, Page = 1, PerPage = 20\<rparr>)
   \<and> 0 < fst (Atoi (Param (id_request ''1'') ''id''))
   \<and> map fst (issued cat_world (snd (handleGetMedia demo_app (id_request ''1'') cat_world)))
       = [GetMediaOp 1 [] []]
   \<and> filter is_get (issued cat_world (snd (handleGetMedia demo_app (id_request ''1'') cat_world))) \<noteq> []"
proof -
  have q: "QueryMedia demo_app ''filesystem'' [] 0 20 cat_world
            = (Inr ([cat_row], 1), log_call (QueryMediaOp ''filesystem'' [] 0 20) (Inr []) cat_world)"
    by (simp add: QueryMedia_def demo_app_def cat_world_def cat_row_def log_call_def Let_def)
  have a: "snd (Atoi (Param (id_request ''abc'') ''id'')) = Some ErrSyntax"
    and b: "fst (Atoi (Param (id_request ''-7'') ''id'')) = - 7"
    and e: "Param (id_request []) ''id'' = []"
    and o: "fst (Atoi (Param (id_request ''1'') ''id'')) = 1"
    by (simp_all add: id_request_def Atoi_def digit_val_def Let_def)
  have n: "length (Param (id_request ''abc'') ''id'') < 19"
    "\<not> numeric (Param (id_request ''abc'') ''id'')"
    by (simp_all add: id_request_def numeric_def is_digit_def digit_val_def)
  have g: "filter is_get (issued cat_world (snd (handleGetMedia demo_app (id_request ''1'') cat_world))) \<noteq> []"
    by (simp add: handleGetMedia_def o GetMedia_def log_call_def issued_def Let_def
          demo_app_def cat_world_def cat_row_def)
  have conf: "MediaUpload_Provider demo_app = ''filesystem''"
    "pg_Offset (NewFromURL demo_app []) = 0" "pg_Limit (NewFromURL demo_app []) = 20"
    "pg_Page (NewFromURL demo_app []) = 1" "pg_PerPage (NewFromURL demo_app []) = 20"
    "\<And>s. FormValue (id_request s) ''query'' = []" "\<And>s. URL_Query (id_request s) = []"
    by (simp_all add: demo_app_def id_request_def)
  from get_media_listing [OF refl refl refl surjective_pairing,
         of "id_request ''abc''" demo_app cat_world]
       get_media_listing [OF refl refl refl surjective_pairing,
         of "id_request []" demo_app cat_world]
       get_media_listing [OF refl refl refl surjective_pairing,
         of "id_request ''-7''" demo_app cat_world]
       get_media_listing [OF refl refl refl surjective_pairing,
         of "id_request ''1''" demo_app cat_world]
       a b e g n o
  show ?thesis
    by (simp add: conf q log_call_def issued_def)
qed

text \<open>
  Claim C9, as it is stated, fails for an id that is not numeric but starts with digits
  that overflow 64 bits. \<^verbatim>\<open>ParseUint\<close> stops at the digit that overflows, so
  \<^verbatim>\<open>Atoi\<close> returns the largest integer and a range error without reading the letters
  that follow. The handler drops the error, takes the id for positive, looks up the row
  with that id instead of listing, and fails with the not-found error.
\<close>

theorem get_media_non_numeric_counterexample:
  "\<not> numeric ''99999999999999999999abc''
   \<and> Atoi ''99999999999999999999abc'' = (9223372036854775807, Some ErrRange)
   \<and> fst (handleGetMedia demo_app (id_request ''99999999999999999999abc'') cat_world)
       = Inl (CoreErr NotFound)
   \<and> map fst (issued cat_world
         (snd (handleGetMedia demo_app (id_request ''99999999999999999999abc'') cat_world)))
       = [GetMediaOp 9223372036854775807 [] []]"
proof -
  have a: "Atoi ''99999999999999999999abc'' = (9223372036854775807, Some ErrRange)"
    by (simp add: Atoi_defs Let_def)
  have n: "\<not> numeric ''99999999999999999999abc''"
    by (simp add: numeric_def is_digit_def digit_val_def)
  have p: "Param (id_request ''99999999999999999999abc'') ''id'' = ''99999999999999999999abc''"
    by (simp add: id_request_def)
  have h: "fst (handleGetMedia demo_app (id_request ''99999999999999999999abc'') cat_world)
            = Inl (CoreErr NotFound)"
    "map fst (issued cat_world
         (snd (handleGetMedia demo_app (id_request ''99999999999999999999abc'') cat_world)))
       = [GetMediaOp 9223372036854775807 [] []]"
    by (simp_all add: handleGetMedia_def p a GetMedia_def log_call_def issued_def Let_def
          demo_app_def cat_world_def cat_row_def)
  from a n h show ?thesis
    by simp
qed

subsection \<open>The content type of the thumbnail\<close>

text \<open>
  Claim C10. In an upload whose extension is in the raster set, a second put to the blob
  store, when there is one, is the put of the thumbnail: its key is "thumb_" followed by
  the stored name of the original, its content type is the one the client declared for
  the original, and its bytes are the PNG encoding of the resized image, whatever the
  format of the original. When the upload succeeds these are its two puts, and the blob
  under the thumbnail name of the row holds the PNG bytes under the declared content
  type.
\<close>

theorem thumbnail_put_content_type:
  assumes "FormFile c ''file'' = Some file"
    and "upload_ext app file \<in> set imageExts"
    and "handleUploadMedia app c w = (res, w')"
  shows "(\<forall>p1 p2 ps. filter is_put (issued w w') = p1 # p2 # ps \<longrightarrow>
            (\<exists>name src stored img thumb r.
               fst (upload_name app file w) = Inr name
               \<and> file_Open file = Some src \<and> Decode app src = Some img
               \<and> Encode app (Resize img thumbnailSize 0 (Lanczos app)) PNG = Some thumb
               \<and> p1 = (PutOp name (file_ContentType file) src, Inr stored)
               \<and> p2 = (PutOp (thumbPrefix @ stored) (file_ContentType file) thumb, r)
               \<and> ps = []))
       \<and> (\<forall>m. res = Inr m \<longrightarrow>
            (\<exists>name src img thumb.
               fst (upload_name app file w) = Inr name
               \<and> file_Open file = Some src \<and> Decode app src = Some img
               \<and> Encode app (Resize img thumbnailSize 0 (Lanczos app)) PNG = Some thumb
               \<and> filter is_put (issued w w')
                   = [(PutOp name (file_ContentType file) src, Inr (Filename m)),
                      (PutOp (thumbPrefix @ Filename m) (file_ContentType file) thumb,
                       Inr (Thumb m))]
               \<and> ContentType m = file_ContentType file
               \<and> blobs w' (Thumb m)
                   = Some \<lparr>blob_type = file_ContentType file, blob_data = thumb\<rparr>))"
  using assms(1,3)
proof (cases rule: upload_cases)
  case early
  then show ?thesis
    by (auto simp: issued_def)
next
  case (norand src w1)
  from upload_name_world(1) [OF norand(2)] norand(3,4) show ?thesis
    by (auto simp: issued_def)
next
  case (noput src fName w1 err)
  from upload_name_world(1) [OF noput(2)] Put_world(1) [OF noput(3)] noput(4) show ?thesis
    by (auto simp: issued_def)
next
  case (stored src fName w1 stored w2 cu tn w3)
  from upload_name_world(1) [OF stored(2)] Put_world(1) [OF stored(3)]
  obtain g where w2: "calls w2 = calls w @ [(GetMediaOp 0 [] (makeFilename app (file_Filename file)), g),
                                            (PutOp fName (file_ContentType file) src, Inr stored)]"
    by auto
  from stored(4) show ?thesis
  proof (cases rule: upload_stored_cases)
    case (noimage err)
    with w2 stored(5) show ?thesis
      by (auto simp: issued_def upload_deferred_world)
  next
    case (nothumb t wd ht err)
    from processImage_Inr [OF nothumb(2)] stored(1)
    obtain img where img: "Decode app src = Some img"
      "Encode app (Resize img thumbnailSize 0 (Lanczos app)) PNG = Some t"
      by auto
    from w2 stored(1,2,5) nothumb(4,5,6) Put_world(1) [OF nothumb(3)] img show ?thesis
      by (auto simp: issued_def upload_deferred_world)
  next
    case (raster t wd ht tf w4 r)
    from processImage_Inr [OF raster(2)] stored(1)
    obtain img where img: "Decode app src = Some img"
      "Encode app (Resize img thumbnailSize 0 (Lanczos app)) PNG = Some t"
      by auto
    from raster(4) raster_not_vector [OF raster(1)] have tn: "tn = tf"
      by simp
    from w2 Put_world(1) [OF raster(3)] InsertMedia_world(1) [OF raster(5)]
    have w3: "calls w3 = calls w @ [(GetMediaOp 0 [] (makeFilename app (file_Filename file)), g),
                 (PutOp fName (file_ContentType file) src, Inr stored),
                 (PutOp (thumbPrefix @ stored) (file_ContentType file) t, Inr tf),
                 (InsertMediaOp stored tn (file_ContentType file)
                    [''width'' \<mapsto> wd, ''height'' \<mapsto> ht] (MediaUpload_Provider app),
                  map_sum id Filename r)]"
      by simp
    have puts: "filter is_put (issued w w')
                 = [(PutOp fName (file_ContentType file) src, Inr stored),
                    (PutOp (thumbPrefix @ stored) (file_ContentType file) t, Inr tf)]"
      using w3 stored(5) by (simp add: issued_def upload_deferred_world)
    have "blobs w' (Thumb m) = Some \<lparr>blob_type = file_ContentType file, blob_data = t\<rparr>
          \<and> Filename m = stored \<and> Thumb m = tf \<and> ContentType m = file_ContentType file"
      if "res = Inr m" for m
    proof -
      from that raster(6) have r: "r = Inr m"
        by (cases r) auto
      with raster(7) have "w' = w3"
        using stored(5) by (simp add: upload_deferred_def)
      with InsertMedia_world(2,3) [OF raster(5)] Put_world(4) [OF raster(3)] r tn
      show ?thesis
        by simp
    qed
    with puts stored(1,2) img show ?thesis
      by auto
  next
    case (other r)
    with assms(2) show ?thesis
      by (simp add: inArray_def)
  qed
qed

theorem thumbnail_put_content_type_witness:
  "upload_ext demo_app \<lparr>file_Filename = ''cat.jpg'', file_ContentType = ''image/jpeg'',
               file_Open = Some [0, 0, 800, 600]\<rparr> \<in> set imageExts
   \<and> map_sum id Thumb (fst (handleUploadMedia demo_app
         (upload_request ''cat.jpg'' ''image/jpeg'' [0, 0, 800, 600]) empty_world))
       = Inr ''thumb_cat.jpg''
   \<and> demo_Encode (Resize \<lparr>Bounds = Rect 0 0 800 600, Pix = [0, 0, 800, 600]\<rparr> thumbnailSize 0
         (Lanczos demo_app)) PNG = Some [80, 250, 188]
   \<and> filter is_put (issued empty_world (snd (handleUploadMedia demo_app
         (upload_request ''cat.jpg'' ''image/jpeg'' [0, 0, 800, 600]) empty_world)))
       = [(PutOp ''cat.jpg'' ''image/jpeg'' [0, 0, 800, 600], Inr ''cat.jpg''),
          (PutOp ''thumb_cat.jpg'' ''image/jpeg'' [80, 250, 188], Inr ''thumb_cat.jpg'')]
   \<and> blobs (snd (handleUploadMedia demo_app
         (upload_request ''cat.jpg'' ''image/jpeg'' [0, 0, 800, 600]) empty_world)) ''thumb_cat.jpg''
       = Some \<lparr>blob_type = ''image/jpeg'', blob_data = [80, 250, 188]\<rparr>"
proof -
  let ?file = "\<lparr>file_Filename = ''cat.jpg'', file_ContentType = ''image/jpeg'',
                 file_Open = Some [0, 0, 800, 600]\<rparr>"
  let ?c = "upload_request ''cat.jpg'' ''image/jpeg'' [0, 0, 800, 600]"
  let ?m = "\<lparr>ID = 1, Filename = ''cat.jpg'', Thumb = ''thumb_cat.jpg'',
              ContentType = ''image/jpeg'',
              Meta = [''width'' \<mapsto> 800, ''height'' \<mapsto> 600], Provider = ''filesystem''\<rparr>"
  have f: "FormFile ?c ''file'' = Some ?file"
    by (simp add: upload_request_def)
  have e: "upload_ext demo_app ?file \<in> set imageExts"
    by (simp add: go_defs imageExts_def)
  have r: "fst (handleUploadMedia demo_app ?c empty_world) = Inr ?m"
    by (simp add: go_defs port_defs upload_defs demo_defs Let_def)
  have d: "Decode demo_app [0, 0, 800, 600]
            = Some \<lparr>Bounds = Rect 0 0 800 600, Pix = [0, 0, 800, 600]\<rparr>"
    by (simp add: demo_app_def demo_Decode_def)
  have t: "demo_Encode (Resize \<lparr>Bounds = Rect 0 0 800 600, Pix = [0, 0, 800, 600]\<rparr>
             thumbnailSize 0 (Lanczos demo_app)) PNG = Some [80, 250, 188]"
    by (simp add: demo_Encode_def Resize_def Rect_def Dx_def Dy_def round_div_def
          thumbnailSize_def Let_def)
  have t': "Encode demo_app = demo_Encode"
    by (simp add: demo_app_def)
  have n: "fst (upload_name demo_app ?file empty_world) = Inr ''cat.jpg''"
    by (simp add: upload_name_def GetMedia_def log_call_def demo_app_def empty_world_def Let_def)
  from thumbnail_put_content_type [where app = demo_app and w = empty_world,
         OF f e surjective_pairing] r
  obtain name src img thumb where
    w: "fst (upload_name demo_app ?file empty_world) = Inr name"
       "file_Open ?file = Some src" "Decode demo_app src = Some img"
       "Encode demo_app (Resize img thumbnailSize 0 (Lanczos demo_app)) PNG = Some thumb"
       "filter is_put (issued empty_world (snd (handleUploadMedia demo_app ?c empty_world)))
          = [(PutOp name (file_ContentType ?file) src, Inr (Filename ?m)),
             (PutOp (thumbPrefix @ Filename ?m) (file_ContentType ?file) thumb, Inr (Thumb ?m))]"
       "blobs (snd (handleUploadMedia demo_app ?c empty_world)) (Thumb ?m)
          = Some \<lparr>blob_type = file_ContentType ?file, blob_data = thumb\<rparr>"
    by blast
  from w(1) n have name: "name = ''cat.jpg''"
    by simp
  from w(2) have src: "src = [0, 0, 800, 600]"
    by simp
  from w(3) d src have img: "img = \<lparr>Bounds = Rect 0 0 800 600, Pix = [0, 0, 800, 600]\<rparr>"
    by simp
  from w(4) t img have thumb: "thumb = [80, 250, 188]"
    by (simp add: t')
  from w(5,6) name src thumb r e t show ?thesis
    by (simp add: thumbPrefix_def)
qed

end
